theory Spec2Isabelle
  imports Complex_Main
begin

section \<open>TalkAI authentication: a shallow embedding\<close>

text \<open>
  The development follows the backend of the repository: the one-time-code store
  (\<^verbatim>\<open>services/otpService.js\<close>), the request limiter and the bearer-token middleware
  (\<^verbatim>\<open>middleware/auth.js\<close>), the token service (\<^verbatim>\<open>services/jwtService.js\<close>), the user
  model (\<^verbatim>\<open>models/User.js\<close>) and the controller (\<^verbatim>\<open>controllers/authController.js\<close>).

  Conventions. \<^verbatim>\<open>Date.now()\<close> is an explicit argument \<open>now\<close>, an integer number of
  milliseconds. A JavaScript \<^verbatim>\<open>Map\<close> is a HOL map, and a method that mutates it returns
  the new map next to its result. A function that may throw returns a sum, \<open>Inl\<close> being the
  exception.
\<close>

subsection \<open>One-time codes (otpService.js)\<close>

record otp_entry =
  otp :: string
  expiresAt :: int
  attempts :: int

type_synonym otp_store = "string \<rightharpoonup> otp_entry"

record otp_result =
  valid :: bool
  message :: string

text \<open>The five results \<^verbatim>\<open>verifyOTP\<close> can return, under the names the specification uses.\<close>

definition NotFound :: otp_result where
  "NotFound = \<lparr>valid = False, message = ''OTP not found or expired''\<rparr>"

definition Expired :: otp_result where
  "Expired = \<lparr>valid = False, message = ''OTP has expired''\<rparr>"

definition Exhausted :: otp_result where
  "Exhausted = \<lparr>valid = False,
     message = ''Too many failed attempts. Please request a new OTP.''\<rparr>"

definition Verified :: otp_result where
  "Verified = \<lparr>valid = True, message = ''OTP verified successfully''\<rparr>"

definition Mismatch :: otp_result where
  "Mismatch = \<lparr>valid = False, message = ''Invalid OTP''\<rparr>"

text \<open>
  \<^verbatim>\<open>storeOTP(email, otp)\<close>: the entry expires ten minutes after \<open>now\<close> and replaces
  whatever was stored for the address.
\<close>

definition storeOTP :: "int \<Rightarrow> string \<Rightarrow> string \<Rightarrow> otp_store \<Rightarrow> otp_store" where
  "storeOTP now email code store =
     store(email \<mapsto> \<lparr>otp = code, expiresAt = now + 10 * 60 * 1000, attempts = 0\<rparr>)"

text \<open>
  \<^verbatim>\<open>verifyOTP(email, otp)\<close>. The stored object is mutated in place by
  \<^verbatim>\<open>storedData.attempts++\<close>, so the incremented entry is what the map holds afterwards
  unless the branch deletes it.
\<close>

definition verifyOTP :: "int \<Rightarrow> string \<Rightarrow> string \<Rightarrow> otp_store \<Rightarrow> otp_result \<times> otp_store" where
  "verifyOTP now email cand store =
     (case store email of
        None \<Rightarrow> (NotFound, store)
      | Some storedData \<Rightarrow>
          if now > expiresAt storedData then (Expired, store(email := None))
          else if attempts storedData \<ge> 3 then (Exhausted, store(email := None))
          else
            let storedData' = storedData\<lparr>attempts := attempts storedData + 1\<rparr>;
                store' = store(email \<mapsto> storedData')
            in if otp storedData' = cand then (Verified, store'(email := None))
               else (Mismatch, store'))"







subsection \<open>Request limiter (middleware/auth.js, rateLimitOTP)\<close>

record rl_entry =
  count :: int
  resetTime :: int

type_synonym rl_store = "string \<rightharpoonup> rl_entry"

text \<open>
  What a handler sends: the status (200 when the handler calls \<^verbatim>\<open>res.json\<close> without
  \<^verbatim>\<open>res.status\<close>), the \<^verbatim>\<open>success\<close> flag, and the text of the \<^verbatim>\<open>message\<close> or
  \<^verbatim>\<open>error\<close> field.
\<close>

record response =
  status :: nat
  success :: bool
  msg :: string

datatype mw_result = Next | Respond response

text \<open>
  \<^verbatim>\<open>rateLimitOTP\<close>. When the address has an entry, \<^verbatim>\<open>clientData\<close> is the object the
  map holds and the window reset mutates it in place; when it has none, the fresh object
  reaches the map only through the final \<^verbatim>\<open>set\<close>.
\<close>

definition too_many :: mw_result where
  "too_many = Respond \<lparr>status = 429, success = False,
     msg = ''Too many OTP requests. Please wait before requesting another OTP.''\<rparr>"

definition rateLimitOTP :: "int \<Rightarrow> string \<Rightarrow> rl_store \<Rightarrow> mw_result \<times> rl_store" where
  "rateLimitOTP now clientIP store =
     (let clientData = (case store clientIP of
                          Some d \<Rightarrow> d
                        | None \<Rightarrow> \<lparr>count = 0, resetTime = now + 60 * 1000\<rparr>);
          clientData1 = (if now > resetTime clientData
                         then \<lparr>count = 0, resetTime = now + 60 * 1000\<rparr>
                         else clientData);
          store1 = (case store clientIP of
                      Some d \<Rightarrow> store(clientIP \<mapsto> clientData1)
                    | None \<Rightarrow> store)
      in if count clientData1 \<ge> 3
         then (too_many, store1)
         else (Next, store1(clientIP \<mapsto> clientData1\<lparr>count := count clientData1 + 1\<rparr>)))"

text \<open>A run of requests from one address, at the given times, oldest first.\<close>

fun requests :: "int list \<Rightarrow> string \<Rightarrow> rl_store \<Rightarrow> mw_result list \<times> rl_store" where
  "requests [] clientIP store = ([], store)"
| "requests (t # ts) clientIP store =
     (let (r, store') = rateLimitOTP t clientIP store;
          (rs, store'') = requests ts clientIP store'
      in (r # rs, store''))"

subsection \<open>Tokens (services/jwtService.js)\<close>

text \<open>
  A field of a JavaScript object may be missing (\<^verbatim>\<open>undefined\<close>), \<^verbatim>\<open>null\<close>, or hold a
  value; the three are told apart where the code compares them.
\<close>

datatype 'a nullable = Undefined | Null | Val 'a

text \<open>
  The \<^verbatim>\<open>jsonwebtoken\<close> package is a dependency, not code of the repository. It is
  modelled symbolically: a token stands for the compact string \<^verbatim>\<open>jwt.sign\<close> returns and
  records the key it was signed with and the claims it carries, and a string that is no
  token at all is \<open>Malformed\<close>. Two tokens are the same string exactly when they are equal.
  \<^verbatim>\<open>iat\<close> and \<^verbatim>\<open>exp\<close> count seconds.
\<close>

record payload =
  userId :: nat
  tok_email :: "string nullable"
  tok_isVerified :: "bool nullable"
  tok_googleId :: "string nullable"
  type :: "string nullable"

record claims = payload +
  iat :: int
  exp :: int
  iss :: string
  aud :: string

datatype jwt = Signed string claims | Malformed string

definition jwt_sign :: "payload \<Rightarrow> string \<Rightarrow> int \<Rightarrow> int \<Rightarrow> string \<Rightarrow> string \<Rightarrow> jwt" where
  "jwt_sign p secret now expiresIn issuer audience =
     Signed secret
       \<lparr>userId = userId p, tok_email = tok_email p, tok_isVerified = tok_isVerified p,
        tok_googleId = tok_googleId p, type = type p,
        iat = now div 1000, exp = now div 1000 + expiresIn,
        iss = issuer, aud = audience\<rparr>"

definition jwt_verify :: "jwt \<Rightarrow> string \<Rightarrow> int \<Rightarrow> string \<Rightarrow> string \<Rightarrow> string + claims" where
  "jwt_verify token secret now issuer audience =
     (case token of
        Malformed s \<Rightarrow> Inl ''jwt malformed''
      | Signed k c \<Rightarrow>
          if k \<noteq> secret then Inl ''invalid signature''
          else if now div 1000 \<ge> exp c then Inl ''jwt expired''
          else if aud c \<noteq> audience then Inl ''jwt audience invalid''
          else if iss c \<noteq> issuer then Inl ''jwt issuer invalid''
          else Inr c)"

definition seven_days :: int where
  "seven_days = 7 * 24 * 60 * 60"

definition one_hour :: int where
  "one_hour = 60 * 60"

subsection \<open>Users (models/User.js)\<close>

text \<open>
  A user document. \<^verbatim>\<open>password\<close> and \<^verbatim>\<open>googleId\<close> are tested for truthiness only, so
  a missing value is \<open>None\<close> and the empty string is checked where the code writes
  \<^verbatim>\<open>!user.password\<close>. The collection is a list and the \<^verbatim>\<open>_id\<close> of a document is its
  position in it: identifiers are unique, a new document gets a fresh one, and nothing here
  deletes a document. A loaded document is the pair of its \<^verbatim>\<open>_id\<close> and its fields.
\<close>

record user =
  email :: string
  password :: "string option"
  googleId :: "string option"
  isVerified :: bool
  verificationToken :: "string nullable"
  resetPasswordToken :: "jwt nullable"
  resetPasswordExpires :: "int nullable"
  profile_name :: "string option"
  profile_picture :: "string option"
  lastLogin :: int
  createdAt :: int
  updatedAt :: int

type_synonym doc = "nat \<times> user"

type_synonym users = "user list"

definition falsy :: "string option \<Rightarrow> bool" where
  "falsy v = (v = None \<or> v = Some [])"

text \<open>\<^verbatim>\<open>String.prototype.toLowerCase\<close> and \<^verbatim>\<open>trim\<close>, on ASCII text.\<close>

definition lower_char :: "char \<Rightarrow> char" where
  "lower_char c =
     (if 65 \<le> (of_char c :: nat) \<and> (of_char c :: nat) \<le> 90
      then (case c of Char b0 b1 b2 b3 b4 b5 b6 b7 \<Rightarrow> Char b0 b1 b2 b3 b4 True b6 b7)
      else c)"

definition toLowerCase :: "string \<Rightarrow> string" where
  "toLowerCase s = map lower_char s"

definition is_space :: "char \<Rightarrow> bool" where
  "is_space c = (of_char c \<in> {9, 10, 11, 12, 13, 32 :: nat})"

definition trim :: "string \<Rightarrow> string" where
  "trim s = rev (dropWhile is_space (rev (dropWhile is_space s)))"

definition findOne :: "(user \<Rightarrow> bool) \<Rightarrow> users \<Rightarrow> doc option" where
  "findOne P store = find (\<lambda>d. P (snd d)) (enumerate 0 store)"

definition findByEmail :: "string \<Rightarrow> users \<Rightarrow> doc option" where
  "findByEmail e store = findOne (\<lambda>u. email u = toLowerCase e) store"

definition findByGoogleId :: "string \<Rightarrow> users \<Rightarrow> doc option" where
  "findByGoogleId g store = findOne (\<lambda>u. googleId u = Some g) store"

definition findById :: "nat \<Rightarrow> users \<Rightarrow> doc option" where
  "findById i store = (if i < length store then Some (i, store ! i) else None)"

text \<open>
  \<^verbatim>\<open>user.save()\<close> on a loaded document. The pre-save hook hashes the password when it
  was modified; \<^verbatim>\<open>bcrypt.genSalt\<close> and \<^verbatim>\<open>bcrypt.hash\<close> belong to a dependency and are
  the parameter \<open>hash\<close>, taken to return. \<^verbatim>\<open>timestamps: true\<close> makes the save set
  \<^verbatim>\<open>updatedAt\<close>. The database is taken to be reachable and a loaded document to pass the validators it
  passed before; a handler that changes a field a validator reads checks it where it does.
\<close>

definition pre_save :: "(string \<Rightarrow> string) \<Rightarrow> bool \<Rightarrow> user \<Rightarrow> user" where
  "pre_save hash passwordModified u =
     (if \<not> passwordModified then u else u\<lparr>password := map_option hash (password u)\<rparr>)"

definition save :: "(string \<Rightarrow> string) \<Rightarrow> bool \<Rightarrow> int \<Rightarrow> doc \<Rightarrow> users \<Rightarrow> doc \<times> users" where
  "save hash passwordModified now d store =
     (let u = (pre_save hash passwordModified (snd d))\<lparr>updatedAt := now\<rparr>
      in ((fst d, u), store[fst d := u]))"

text \<open>
  \<^verbatim>\<open>comparePassword\<close>. \<^verbatim>\<open>bcrypt.compare\<close> is the parameter \<open>compare\<close>: it answers
  with a boolean or rejects with an error message.
\<close>

definition comparePassword ::
  "(string \<Rightarrow> string option \<Rightarrow> string + bool) \<Rightarrow> user \<Rightarrow> string \<Rightarrow> string + bool" where
  "comparePassword compare this candidatePassword =
     (case compare candidatePassword (password this) of
        Inr b \<Rightarrow> Inr b
      | Inl error \<Rightarrow> Inl ''Password comparison failed'')"

definition getPublicProfile :: "user \<Rightarrow> user" where
  "getPublicProfile u =
     u\<lparr>password := None, verificationToken := Undefined,
       resetPasswordToken := Undefined, resetPasswordExpires := Undefined\<rparr>"

text \<open>
  Instances of the two parameters for the concrete evaluations below: a hash that tags the
  plain text, and a comparison that rejects a missing hash the way the package rejects a
  non-string argument.
\<close>

definition sample_hash :: "string \<Rightarrow> string" where
  "sample_hash p = ''$2a$12$'' @ p"

definition sample_compare :: "string \<Rightarrow> string option \<Rightarrow> string + bool" where
  "sample_compare s h =
     (case h of
        None \<Rightarrow> Inl ''Illegal arguments: string, undefined''
      | Some hs \<Rightarrow> Inr (hs = sample_hash s))"

subsection \<open>Token service methods (services/jwtService.js)\<close>

text \<open>\<open>secret\<close> is \<^verbatim>\<open>process.env.JWT_SECRET\<close>.\<close>

definition generateToken :: "string \<Rightarrow> int \<Rightarrow> doc \<Rightarrow> jwt" where
  "generateToken secret now user =
     jwt_sign
       \<lparr>userId = fst user, tok_email = Val (email (snd user)),
        tok_isVerified = Val (isVerified (snd user)),
        tok_googleId = (case googleId (snd user) of
                          None \<Rightarrow> Null
                        | Some g \<Rightarrow> if g = [] then Null else Val g),
        type = Undefined\<rparr>
       secret now seven_days ''talkai-backend'' ''talkai-users''"

definition generateShortToken :: "string \<Rightarrow> int \<Rightarrow> payload \<Rightarrow> int \<Rightarrow> jwt" where
  "generateShortToken secret now p expiresIn =
     jwt_sign p secret now expiresIn ''talkai-backend'' ''talkai-users''"

text \<open>
  \<^verbatim>\<open>verifyToken\<close> returns \<^verbatim>\<open>{valid: true, payload}\<close>, here \<open>Inr payload\<close>, or
  \<^verbatim>\<open>{valid: false, error}\<close>, here \<open>Inl error\<close>. It takes the token and nothing else.
\<close>

definition verifyToken :: "string \<Rightarrow> int \<Rightarrow> jwt \<Rightarrow> string + claims" where
  "verifyToken secret now token =
     jwt_verify token secret now ''talkai-backend'' ''talkai-users''"

text \<open>
  The \<^verbatim>\<open>Authorization\<close> header: missing, the text \<^verbatim>\<open>Bearer\<close> and a blank followed by a
  token string, or any other text.
\<close>

datatype auth_header = NoHeader | Bearer jwt | OtherHeader string

definition extractTokenFromHeader :: "auth_header \<Rightarrow> jwt option" where
  "extractTokenFromHeader authHeader =
     (case authHeader of
        NoHeader \<Rightarrow> None
      | OtherHeader s \<Rightarrow> None
      | Bearer t \<Rightarrow> Some t)"

subsection \<open>Bearer-token middleware (middleware/auth.js, authenticateToken)\<close>

datatype auth_result = Denied response | Granted doc jwt

definition failure :: "nat \<Rightarrow> string \<Rightarrow> response" where
  "failure code e = \<lparr>status = code, success = False, msg = e\<rparr>"

definition ok :: "string \<Rightarrow> response" where
  "ok m = \<lparr>status = 200, success = True, msg = m\<rparr>"

text \<open>\<^verbatim>\<open>!token\<close> holds of the empty string, the one token string that is falsy.\<close>

definition authenticateToken :: "string \<Rightarrow> int \<Rightarrow> auth_header \<Rightarrow> users \<Rightarrow> auth_result" where
  "authenticateToken secret now authHeader store =
     (case extractTokenFromHeader authHeader of
        None \<Rightarrow> Denied (failure 401 ''Access token required'')
      | Some token \<Rightarrow>
          if token = Malformed [] then Denied (failure 401 ''Access token required'')
          else
            (case verifyToken secret now token of
               Inl error \<Rightarrow> Denied (failure 401 ''Invalid or expired token'')
             | Inr payload \<Rightarrow>
                 (case findById (userId payload) store of
                    None \<Rightarrow> Denied (failure 401 ''User not found'')
                  | Some user \<Rightarrow>
                      if \<not> isVerified (snd user)
                      then Denied (failure 403
                             ''Email not verified. Please verify your email address.'')
                      else Granted user token)))"

subsection \<open>Controller (controllers/authController.js)\<close>

text \<open>
  A request body field is missing or a string. Each handler returns what it sends and the
  collection it leaves behind.
\<close>

definition signin ::
  "(string \<Rightarrow> string option \<Rightarrow> string + bool) \<Rightarrow> (string \<Rightarrow> string) \<Rightarrow> string \<Rightarrow> int \<Rightarrow>
   string option \<Rightarrow> string option \<Rightarrow> users \<Rightarrow> (response \<times> (user \<times> jwt) option) \<times> users" where
  "signin compare hash secret now body_email body_password store =
     (if falsy body_email \<or> falsy body_password
      then ((failure 400 ''Email and password are required'', None), store)
      else
        (case findByEmail (the body_email) store of
           None \<Rightarrow> ((failure 401 ''Invalid email or password'', None), store)
         | Some user \<Rightarrow>
             if falsy (password (snd user))
             then ((failure 401
                      ''This account uses Google OAuth. Please sign in with Google.'', None),
                   store)
             else
               (case comparePassword compare (snd user) (the body_password) of
                  Inl error \<Rightarrow> ((failure 500 ''Sign in failed'', None), store)
                | Inr isPasswordValid \<Rightarrow>
                    if \<not> isPasswordValid
                    then ((failure 401 ''Invalid email or password'', None), store)
                    else if \<not> isVerified (snd user)
                    then ((failure 403
                             ''Email not verified. Please verify your email address.'', None),
                          store)
                    else
                      (let (user', store') =
                             save hash False now (fst user, (snd user)\<lparr>lastLogin := now\<rparr>) store;
                           token = generateToken secret now user'
                       in ((ok ''Sign in successful'',
                            Some (getPublicProfile (snd user'), token)),
                           store')))))"

definition generic_reset_message :: string where
  "generic_reset_message = ''If the email exists, a password reset link has been sent''"

text \<open>
  \<^verbatim>\<open>requestPasswordReset\<close>. \<open>mailSent\<close> tells whether
  \<^verbatim>\<open>emailService.sendPasswordResetEmail\<close> returned; it throws when the service is not
  initialised and when the transport fails.
\<close>

definition requestPasswordReset ::
  "(string \<Rightarrow> string) \<Rightarrow> string \<Rightarrow> int \<Rightarrow> bool \<Rightarrow> string option \<Rightarrow> users \<Rightarrow> response \<times> users" where
  "requestPasswordReset hash secret now mailSent body_email store =
     (if falsy body_email then (failure 400 ''Email is required'', store)
      else
        (case findByEmail (the body_email) store of
           None \<Rightarrow> (ok generic_reset_message, store)
         | Some user \<Rightarrow>
             if falsy (password (snd user)) then (ok generic_reset_message, store)
             else
               (let resetToken =
                      generateShortToken secret now
                        \<lparr>userId = fst user, tok_email = Undefined, tok_isVerified = Undefined,
                         tok_googleId = Undefined, type = Val ''password-reset''\<rparr>
                        one_hour;
                    (user', store') =
                      save hash False now
                        (fst user,
                         (snd user)\<lparr>resetPasswordToken := Val resetToken,
                                    resetPasswordExpires := Val (now + 60 * 60 * 1000)\<rparr>)
                        store
                in if \<not> mailSent then (failure 500 ''Failed to request password reset'', store')
                   else (ok generic_reset_message, store'))))"

text \<open>
  \<^verbatim>\<open>user.resetPasswordExpires < new Date()\<close>: a missing date compares as \<^verbatim>\<open>NaN\<close> and
  the test is false, \<^verbatim>\<open>null\<close> compares as 0.
\<close>

fun date_before :: "int nullable \<Rightarrow> int \<Rightarrow> bool" where
  "date_before Undefined now = False"
| "date_before Null now = (0 < now)"
| "date_before (Val t) now = (t < now)"

definition resetPassword ::
  "(string \<Rightarrow> string) \<Rightarrow> string \<Rightarrow> int \<Rightarrow> jwt option \<Rightarrow> string option \<Rightarrow> users \<Rightarrow> response \<times> users" where
  "resetPassword hash secret now body_token body_newPassword store =
     (if body_token = None \<or> body_token = Some (Malformed []) \<or> falsy body_newPassword
      then (failure 400 ''Token and new password are required'', store)
      else if length (the body_newPassword) < 6
      then (failure 400 ''New password must be at least 6 characters long'', store)
      else
        (let token = the body_token; newPassword = the body_newPassword
         in case verifyToken secret now token of
              Inl error \<Rightarrow> (failure 400 ''Invalid or expired reset token'', store)
            | Inr payload \<Rightarrow>
                if type payload \<noteq> Val ''password-reset''
                then (failure 400 ''Invalid or expired reset token'', store)
                else
                  (case findById (userId payload) store of
                     None \<Rightarrow> (failure 400 ''Invalid or expired reset token'', store)
                   | Some user \<Rightarrow>
                       if resetPasswordToken (snd user) \<noteq> Val token
                       then (failure 400 ''Invalid or expired reset token'', store)
                       else if date_before (resetPasswordExpires (snd user)) now
                       then (failure 400 ''Reset token has expired'', store)
                       else
                         (let (user', store') =
                                save hash True now
                                  (fst user,
                                   (snd user)\<lparr>password := Some newPassword,
                                              resetPasswordToken := Null,
                                              resetPasswordExpires := Null\<rparr>)
                                  store
                          in (ok ''Password reset successfully'', store')))))"

subsection \<open>Linking a Google profile (models/User.js, findOrCreateGoogleUser)\<close>

text \<open>
  The profile handed over by the provider: \<^verbatim>\<open>emails\<close> and \<^verbatim>\<open>photos\<close> are the
  \<^verbatim>\<open>value\<close> fields of the entries, empty when the array is missing.
\<close>

record google_profile =
  profile_id :: string
  emails :: "string list"
  displayName :: "string option"
  photos :: "string list"

datatype error = ValidationError | DuplicateKey

text \<open>
  Saving a new document. The schema lower-cases and trims the address and trims the name,
  requires an address that matches the schema's pattern (the parameter \<open>validEmail\<close>),
  requires a password unless \<^verbatim>\<open>googleId\<close> is truthy, and keeps the address and the
  \<^verbatim>\<open>googleId\<close> unique. \<^verbatim>\<open>lastLogin\<close> defaults to the current time.
\<close>

definition createGoogleUser ::
  "(string \<Rightarrow> bool) \<Rightarrow> int \<Rightarrow> google_profile \<Rightarrow> users \<Rightarrow> (error + doc) \<times> users" where
  "createGoogleUser validEmail now googleProfile store =
     (case emails googleProfile of
        [] \<Rightarrow> (Inl ValidationError, store)
      | e # es \<Rightarrow>
          (let u = \<lparr>email = toLowerCase (trim e), password = None,
                    googleId = Some (profile_id googleProfile), isVerified = True,
                    verificationToken = Undefined, resetPasswordToken = Undefined,
                    resetPasswordExpires = Undefined,
                    profile_name = map_option trim (displayName googleProfile),
                    profile_picture = (case photos googleProfile of
                                         [] \<Rightarrow> None
                                       | ph # phs \<Rightarrow> Some ph),
                    lastLogin = now, createdAt = now, updatedAt = now\<rparr>
           in if \<not> validEmail (email u) then (Inl ValidationError, store)
              else if profile_id googleProfile = [] then (Inl ValidationError, store)
              else if email u \<in> set (map email store) then (Inl DuplicateKey, store)
              else if googleId u \<in> set (map googleId store) then (Inl DuplicateKey, store)
              else (Inr (length store, u), store @ [u])))"

text \<open>
  \<^verbatim>\<open>findOrCreateGoogleUser\<close>. Linking writes \<^verbatim>\<open>googleId\<close>, which the schema's
  \<^verbatim>\<open>required\<close> function for the password reads: the save is refused when neither is
  truthy afterwards.
\<close>

definition findOrCreateGoogleUser ::
  "(string \<Rightarrow> bool) \<Rightarrow> (string \<Rightarrow> string) \<Rightarrow> int \<Rightarrow> google_profile \<Rightarrow> users \<Rightarrow>
   (error + doc) \<times> users" where
  "findOrCreateGoogleUser validEmail hash now googleProfile store =
     (case findByGoogleId (profile_id googleProfile) store of
        Some user \<Rightarrow>
          (let (user', store') =
                 save hash False now (fst user, (snd user)\<lparr>lastLogin := now\<rparr>) store
           in (Inr user', store'))
      | None \<Rightarrow>
          (case (case emails googleProfile of
                   [] \<Rightarrow> None
                 | e # es \<Rightarrow> findByEmail e store) of
             Some user \<Rightarrow>
               if profile_id googleProfile = [] \<and> falsy (password (snd user))
               then (Inl ValidationError, store)
               else
                 (let (user', store') =
                        save hash False now
                          (fst user,
                           (snd user)\<lparr>googleId := Some (profile_id googleProfile),
                                      isVerified := True, lastLogin := now\<rparr>)
                          store
                  in (Inr user', store'))
           | None \<Rightarrow> createGoogleUser validEmail now googleProfile store))"

subsection \<open>Sample data\<close>

text \<open>
  A verified account with a password, an account that only has a Google identity, a
  profile as the provider hands it over, and a profile without an address.
\<close>

definition alice :: user where
  "alice = \<lparr>email = ''alice@x.com'', password = Some (sample_hash ''correct horse''),
     googleId = None, isVerified = True, verificationToken = Null,
     resetPasswordToken = Undefined, resetPasswordExpires = Undefined,
     profile_name = Some ''Alice'', profile_picture = None,
     lastLogin = 0, createdAt = 0, updatedAt = 0\<rparr>"

definition gina :: user where
  "gina = \<lparr>email = ''gina@x.com'', password = None,
     googleId = Some ''g-1001'', isVerified = True, verificationToken = Undefined,
     resetPasswordToken = Undefined, resetPasswordExpires = Undefined,
     profile_name = Some ''Gina'', profile_picture = None,
     lastLogin = 0, createdAt = 0, updatedAt = 0\<rparr>"

definition alice_profile :: google_profile where
  "alice_profile = \<lparr>profile_id = ''g-2002'', emails = [''Alice@X.com''],
     displayName = Some ''Alice A.'', photos = []\<rparr>"

definition no_mail_profile :: google_profile where
  "no_mail_profile = \<lparr>profile_id = ''g-3003'', emails = [],
     displayName = Some ''Nora'', photos = []\<rparr>"

definition sample_validEmail :: "string \<Rightarrow> bool" where
  "sample_validEmail e = (CHR ''@'' \<in> set e)"

definition reset_payload :: "nat \<Rightarrow> payload" where
  "reset_payload i = \<lparr>userId = i, tok_email = Undefined, tok_isVerified = Undefined,
     tok_googleId = Undefined, type = Val ''password-reset''\<rparr>"

section \<open>Properties\<close>

subsection \<open>One-time codes: the attempt limit\<close>

lemma verifyOTP_wrong:
  assumes "store addr = Some d" "now \<le> expiresAt d" "attempts d < 3" "cand \<noteq> otp d"
  shows "verifyOTP now addr cand store =
           (Mismatch, store(addr \<mapsto> d\<lparr>attempts := attempts d + 1\<rparr>))"
  using assms by (simp add: verifyOTP_def Let_def)

lemma verifyOTP_spent:
  assumes "store addr = Some d" "attempts d \<ge> 3"
  shows "verifyOTP now addr cand store =
           ((if now > expiresAt d then Expired else Exhausted), store(addr := None))"
  using assms by (simp add: verifyOTP_def)

text \<open>
  C2. Take a challenge with no attempts made. Three calls of \<^verbatim>\<open>verifyOTP\<close> with a wrong
  code, each before the challenge expires, return \<open>Mismatch\<close> and leave the attempt
  counter at 1, 2 and 3. The fourth call, whatever code it presents (the stored one
  included) and whenever it comes, deletes the challenge and is not \<open>Verified\<close>; before
  the expiry time its result is \<open>Exhausted\<close>.
\<close>

theorem verifyOTP_fourth_attempt_exhausted:
  assumes "store addr = Some d" and "attempts d = 0"
    and "c1 \<noteq> otp d" and "c2 \<noteq> otp d" and "c3 \<noteq> otp d"
    and "t1 \<le> expiresAt d" and "t2 \<le> expiresAt d" and "t3 \<le> expiresAt d"
  shows "\<exists>s1 s2 s3 r4 s4.
           verifyOTP t1 addr c1 store = (Mismatch, s1) \<and>
           map_option attempts (s1 addr) = Some 1 \<and>
           verifyOTP t2 addr c2 s1 = (Mismatch, s2) \<and>
           map_option attempts (s2 addr) = Some 2 \<and>
           verifyOTP t3 addr c3 s2 = (Mismatch, s3) \<and>
           map_option attempts (s3 addr) = Some 3 \<and>
           verifyOTP t4 addr c4 s3 = (r4, s4) \<and>
           r4 \<noteq> Verified \<and> \<not> valid r4 \<and> s4 = s3(addr := None) \<and>
           (t4 \<le> expiresAt d \<longrightarrow> r4 = Exhausted)"
proof -
  let ?d1 = "d\<lparr>attempts := 1\<rparr>"
  let ?d2 = "d\<lparr>attempts := 2\<rparr>"
  let ?d3 = "d\<lparr>attempts := 3\<rparr>"
  let ?s1 = "store(addr \<mapsto> ?d1)"
  let ?s2 = "store(addr \<mapsto> ?d2)"
  let ?s3 = "store(addr \<mapsto> ?d3)"
  have 1: "verifyOTP t1 addr c1 store = (Mismatch, ?s1)"
    using verifyOTP_wrong [of store addr d t1 c1] assms by simp
  have 2: "verifyOTP t2 addr c2 ?s1 = (Mismatch, ?s2)"
    using verifyOTP_wrong [of ?s1 addr ?d1 t2 c2] assms by simp
  have 3: "verifyOTP t3 addr c3 ?s2 = (Mismatch, ?s3)"
    using verifyOTP_wrong [of ?s2 addr ?d2 t3 c3] assms by simp
  have 4: "verifyOTP t4 addr c4 ?s3 =
             ((if t4 > expiresAt d then Expired else Exhausted), ?s3(addr := None))"
    using verifyOTP_spent [of ?s3 addr ?d3 t4 c4] by simp
  have ne: "(if t4 > expiresAt d then Expired else Exhausted) \<noteq> Verified"
    "\<not> valid (if t4 > expiresAt d then Expired else Exhausted)"
    by (simp_all add: Expired_def Exhausted_def Verified_def)
  show ?thesis
    using 1 2 3 4 ne by simp
qed

theorem verifyOTP_fourth_attempt_exhausted_witness:
  "\<exists>s3. verifyOTP 3000 ''a@b.com'' ''000000''
            (snd (verifyOTP 2000 ''a@b.com'' ''000000''
              (snd (verifyOTP 1000 ''a@b.com'' ''000000''
                (storeOTP 0 ''a@b.com'' ''123456'' Map.empty))))) = (Mismatch, s3) \<and>
        verifyOTP 4000 ''a@b.com'' ''123456'' s3 = (Exhausted, s3(''a@b.com'' := None))"
  using verifyOTP_fourth_attempt_exhausted
    [of "storeOTP 0 ''a@b.com'' ''123456'' Map.empty" "''a@b.com''"
        "\<lparr>otp = ''123456'', expiresAt = 600000, attempts = 0\<rparr>"
        "''000000''" "''000000''" "''000000''" 1000 2000 3000 4000 "''123456''"]
  by (auto simp add: storeOTP_def)

subsection \<open>One-time codes: expiry\<close>

lemma verifyOTP_right:
  assumes "store addr = Some d" "now \<le> expiresAt d" "attempts d < 3"
  shows "verifyOTP now addr (otp d) store = (Verified, store(addr := None))"
  using assms by (simp add: verifyOTP_def Let_def)

lemma verifyOTP_late:
  assumes "store addr = Some d" "now > expiresAt d"
  shows "verifyOTP now addr cand store = (Expired, store(addr := None))"
  using assms by (simp add: verifyOTP_def)

text \<open>
  C7. \<^verbatim>\<open>storeOTP\<close> sets the expiry to the time of issue plus ten minutes. For a challenge
  with that expiry and fewer than three attempts made, \<^verbatim>\<open>verifyOTP\<close> with the stored
  code is \<open>Verified\<close> one second before the expiry time and at the expiry time itself
  (the test is \<^verbatim>\<open>Date.now() > expiresAt\<close>), and one second after it the result is
  \<open>Expired\<close> for any code; each of the three deletes the challenge.
\<close>

theorem verifyOTP_expiry_boundary:
  assumes "store addr = Some d" and "attempts d < 3"
    and "expiresAt d = issuedAt + 10 * 60 * 1000"
  shows "storeOTP issuedAt addr code store0 addr =
           Some \<lparr>otp = code, expiresAt = issuedAt + 10 * 60 * 1000, attempts = 0\<rparr> \<and>
         verifyOTP (issuedAt + 10 * 60 * 1000 - 1000) addr (otp d) store =
           (Verified, store(addr := None)) \<and>
         verifyOTP (issuedAt + 10 * 60 * 1000) addr (otp d) store =
           (Verified, store(addr := None)) \<and>
         verifyOTP (issuedAt + 10 * 60 * 1000 + 1000) addr cand store =
           (Expired, store(addr := None)) \<and>
         (\<forall>now. now \<le> issuedAt + 10 * 60 * 1000 \<longrightarrow>
            verifyOTP now addr (otp d) store = (Verified, store(addr := None))) \<and>
         (\<forall>now. now > issuedAt + 10 * 60 * 1000 \<longrightarrow>
            verifyOTP now addr cand store = (Expired, store(addr := None)))"
proof -
  have a: "storeOTP issuedAt addr code store0 addr =
             Some \<lparr>otp = code, expiresAt = issuedAt + 10 * 60 * 1000, attempts = 0\<rparr>"
    by (simp add: storeOTP_def)
  have b: "now \<le> issuedAt + 10 * 60 * 1000 \<Longrightarrow>
             verifyOTP now addr (otp d) store = (Verified, store(addr := None))" for now
    using verifyOTP_right [of store addr d now] assms by simp
  have c: "now > issuedAt + 10 * 60 * 1000 \<Longrightarrow>
             verifyOTP now addr cand store = (Expired, store(addr := None))" for now
    using verifyOTP_late [of store addr d now cand] assms by simp
  show ?thesis
    using a b c by simp
qed

theorem verifyOTP_expiry_boundary_witness:
  "verifyOTP 599000 ''a@b.com'' ''123456'' (storeOTP 0 ''a@b.com'' ''123456'' Map.empty) =
     (Verified, Map.empty) \<and>
   verifyOTP 600000 ''a@b.com'' ''123456'' (storeOTP 0 ''a@b.com'' ''123456'' Map.empty) =
     (Verified, Map.empty) \<and>
   verifyOTP 601000 ''a@b.com'' ''123456'' (storeOTP 0 ''a@b.com'' ''123456'' Map.empty) =
     (Expired, Map.empty)"
  using verifyOTP_expiry_boundary
    [of "storeOTP 0 ''a@b.com'' ''123456'' Map.empty" "''a@b.com''"
        "\<lparr>otp = ''123456'', expiresAt = 600000, attempts = 0\<rparr>" 0
        "''123456''" Map.empty "''123456''"]
  by (simp add: storeOTP_def)

subsection \<open>The request limiter\<close>

lemma rateLimitOTP_in_window:
  assumes "store ip = Some e" "now \<le> resetTime e"
  shows "rateLimitOTP now ip store =
           (if count e \<ge> 3 then (too_many, store)
            else (Next, store(ip \<mapsto> e\<lparr>count := count e + 1\<rparr>)))"
  using assms by (auto simp add: rateLimitOTP_def Let_def too_many_def fun_upd_idem)

lemma rateLimitOTP_fresh:
  assumes "store ip = None"
  shows "rateLimitOTP now ip store =
           (Next, store(ip \<mapsto> \<lparr>count = 1, resetTime = now + 60 * 1000\<rparr>))"
  using assms by (simp add: rateLimitOTP_def Let_def)

lemma rateLimitOTP_after_window:
  assumes "store ip = Some e" "now > resetTime e"
  shows "rateLimitOTP now ip store =
           (Next, store(ip \<mapsto> \<lparr>count = 1, resetTime = now + 60 * 1000\<rparr>))"
  using assms by (simp add: rateLimitOTP_def Let_def)

lemma requests_Cons:
  "requests (t # ts) ip store =
     (fst (rateLimitOTP t ip store) # fst (requests ts ip (snd (rateLimitOTP t ip store))),
      snd (requests ts ip (snd (rateLimitOTP t ip store))))"
  by (simp add: case_prod_beta)

lemma map_upt_shift:
  "map f [0..<Suc n] = f 0 # map (\<lambda>i. f (Suc i)) [0..<n]"
  by (simp add: upt_conv_Cons map_Suc_upt [symmetric] del: upt_Suc)

lemma requests_in_window:
  assumes "store ip = Some e" "0 \<le> count e" "count e \<le> 3" "\<forall>t \<in> set ts. t \<le> resetTime e"
  shows "fst (requests ts ip store) =
           map (\<lambda>i. if count e + int i < 3 then Next else too_many) [0..<length ts] \<and>
         snd (requests ts ip store) =
           store(ip \<mapsto> e\<lparr>count := min 3 (count e + int (length ts))\<rparr>)"
  using assms
proof (induction ts arbitrary: store e)
  case Nil
  then show ?case by (simp add: fun_upd_idem)
next
  case (Cons t ts)
  have step: "rateLimitOTP t ip store =
      (if count e \<ge> 3 then (too_many, store)
       else (Next, store(ip \<mapsto> e\<lparr>count := count e + 1\<rparr>)))"
    using rateLimitOTP_in_window [of store ip e t] Cons.prems by simp
  show ?case
  proof (cases "count e \<ge> 3")
    case True
    then have c3: "count e = 3" using Cons.prems by simp
    have ih: "fst (requests ts ip store) =
           map (\<lambda>i. if count e + int i < 3 then Next else too_many) [0..<length ts] \<and>
         snd (requests ts ip store) =
           store(ip \<mapsto> e\<lparr>count := min 3 (count e + int (length ts))\<rparr>)"
      by (rule Cons.IH [of store e]) (use Cons.prems in auto)
    have a: "fst (requests (t # ts) ip store) =
           map (\<lambda>i. if count e + int i < 3 then Next else too_many) [0..<length (t # ts)]"
      unfolding requests_Cons step using ih c3 by (simp add: map_upt_shift del: upt_Suc)
    have b: "snd (requests (t # ts) ip store) =
           store(ip \<mapsto> e\<lparr>count := min 3 (count e + int (length (t # ts)))\<rparr>)"
      unfolding requests_Cons step using ih c3 by simp
    show ?thesis using a b by blast
  next
    case False
    let ?e' = "e\<lparr>count := count e + 1\<rparr>"
    let ?s' = "store(ip \<mapsto> ?e')"
    have ih: "fst (requests ts ip ?s') =
        map (\<lambda>i. if count ?e' + int i < 3 then Next else too_many) [0..<length ts] \<and>
        snd (requests ts ip ?s') =
         ?s'(ip \<mapsto> ?e'\<lparr>count := min 3 (count ?e' + int (length ts))\<rparr>)"
      by (rule Cons.IH [of ?s' ?e']) (use Cons.prems False in auto)
    have eq: "count e + 1 + int i = count e + int (Suc i)" for i by simp
    have a: "fst (requests (t # ts) ip store) =
           map (\<lambda>i. if count e + int i < 3 then Next else too_many) [0..<length (t # ts)]"
      unfolding requests_Cons step using ih False
      by (simp add: map_upt_shift eq del: upt_Suc of_nat_Suc)
    have b: "snd (requests (t # ts) ip store) =
           store(ip \<mapsto> e\<lparr>count := min 3 (count e + int (length (t # ts)))\<rparr>)"
      unfolding requests_Cons step using ih False by (simp add: add.assoc)
    show ?thesis using a b by blast
  qed
qed

lemma rateLimitOTP_count_nonneg:
  assumes "\<forall>e. store k = Some e \<longrightarrow> 0 \<le> count e"
  shows "\<forall>e. snd (rateLimitOTP now ip store) k = Some e \<longrightarrow> 0 \<le> count e"
  using assms by (auto simp add: rateLimitOTP_def Let_def split: option.splits if_splits)

lemma requests_count_nonneg:
  assumes "\<forall>e. store k = Some e \<longrightarrow> 0 \<le> count e"
  shows "\<forall>e. snd (requests us ip store) k = Some e \<longrightarrow> 0 \<le> count e"
  using assms
proof (induction us arbitrary: store)
  case Nil
  then show ?case by simp
next
  case (Cons u us)
  have "\<forall>e. snd (rateLimitOTP u ip store) k = Some e \<longrightarrow> 0 \<le> count e"
    using rateLimitOTP_count_nonneg [of store k u ip] Cons.prems by blast
  then have "\<forall>e. snd (requests us ip (snd (rateLimitOTP u ip store))) k = Some e \<longrightarrow> 0 \<le> count e"
    by (rule Cons.IH)
  then show ?case
    unfolding requests_Cons by simp
qed

text \<open>
  C8. An address with no entry, or with an entry whose window has passed, sends a request
  at \<open>t1\<close> and further requests no later than \<open>t1\<close> plus 60 seconds. The first three
  requests pass, the fourth and every later one get status 429, and the counter stops at 3.
  The first request after the window passes and starts a new window with the counter at 1.
  Whatever the request times, a counter that is not negative never becomes negative.
\<close>

theorem rateLimitOTP_fixed_window:
  assumes "store ip = None \<or> (\<exists>e. store ip = Some e \<and> resetTime e < t1)"
    and "\<forall>t \<in> set ts. t \<le> t1 + 60 * 1000"
  shows "fst (requests (t1 # ts) ip store) =
           map (\<lambda>i. if i < 3 then Next else too_many) [0..<Suc (length ts)] \<and>
         snd (requests (t1 # ts) ip store) =
           store(ip \<mapsto> \<lparr>count = min 3 (1 + int (length ts)), resetTime = t1 + 60 * 1000\<rparr>) \<and>
         (\<forall>t'. t' > t1 + 60 * 1000 \<longrightarrow>
            rateLimitOTP t' ip (snd (requests (t1 # ts) ip store)) =
              (Next, store(ip \<mapsto> \<lparr>count = 1, resetTime = t' + 60 * 1000\<rparr>))) \<and>
         ((\<forall>e. store ip = Some e \<longrightarrow> 0 \<le> count e) \<longrightarrow>
            (\<forall>us e. snd (requests us ip store) ip = Some e \<longrightarrow> 0 \<le> count e))"
proof -
  let ?e = "\<lparr>count = 1, resetTime = t1 + 60 * 1000\<rparr>"
  let ?s = "store(ip \<mapsto> ?e)"
  have first: "rateLimitOTP t1 ip store = (Next, ?s)"
    using assms(1) rateLimitOTP_fresh [of store ip t1] rateLimitOTP_after_window [of store ip _ t1]
    by auto
  have rest: "fst (requests ts ip ?s) =
           map (\<lambda>i. if count ?e + int i < 3 then Next else too_many) [0..<length ts] \<and>
         snd (requests ts ip ?s) =
           ?s(ip \<mapsto> ?e\<lparr>count := min 3 (count ?e + int (length ts))\<rparr>)"
    by (rule requests_in_window [of ?s ip ?e ts]) (use assms(2) in auto)
  have idx: "(1 + int i < 3) = (Suc i < 3)" for i by auto
  have a: "fst (requests (t1 # ts) ip store) =
           map (\<lambda>i. if i < 3 then Next else too_many) [0..<Suc (length ts)]"
    unfolding requests_Cons first using rest
    by (simp add: map_upt_shift idx del: upt_Suc)
  have b: "snd (requests (t1 # ts) ip store) =
           store(ip \<mapsto> \<lparr>count = min 3 (1 + int (length ts)), resetTime = t1 + 60 * 1000\<rparr>)"
    unfolding requests_Cons first using rest by simp
  have c: "rateLimitOTP t' ip (snd (requests (t1 # ts) ip store)) =
              (Next, store(ip \<mapsto> \<lparr>count = 1, resetTime = t' + 60 * 1000\<rparr>))"
    if "t' > t1 + 60 * 1000" for t'
    unfolding b
    using rateLimitOTP_after_window
      [of "store(ip \<mapsto> \<lparr>count = min 3 (1 + int (length ts)), resetTime = t1 + 60 * 1000\<rparr>)"
          ip "\<lparr>count = min 3 (1 + int (length ts)), resetTime = t1 + 60 * 1000\<rparr>" t'] that
    by simp
  have d: "\<forall>e. snd (requests us ip store) ip = Some e \<longrightarrow> 0 \<le> count e"
    if "\<forall>e. store ip = Some e \<longrightarrow> 0 \<le> count e" for us
    using that by (rule requests_count_nonneg)
  show ?thesis
    using a b c d by blast
qed

theorem rateLimitOTP_fixed_window_witness:
  "fst (requests [0, 1000, 2000, 60000, 60000] ''10.0.0.7'' Map.empty) =
     [Next, Next, Next, too_many, too_many] \<and>
   snd (requests [0, 1000, 2000, 60000, 60000] ''10.0.0.7'' Map.empty) ''10.0.0.7'' =
     Some \<lparr>count = 3, resetTime = 60000\<rparr> \<and>
   fst (rateLimitOTP 60001 ''10.0.0.7''
          (snd (requests [0, 1000, 2000, 60000, 60000] ''10.0.0.7'' Map.empty))) = Next"
  using rateLimitOTP_fixed_window [of Map.empty "''10.0.0.7''" 0 "[1000, 2000, 60000, 60000]"]
  by (auto simp add: upt_rec simp del: requests.simps)

subsection \<open>The code generator\<close>











subsection \<open>Password comparison\<close>




subsection \<open>Password reset: completion\<close>

lemma resetPassword_failure_frame:
  "\<not> success (fst (resetPassword hash secret now tok npw store)) \<Longrightarrow>
     status (fst (resetPassword hash secret now tok npw store)) = 400 \<and>
     snd (resetPassword hash secret now tok npw store) = store"
  by (auto simp add: resetPassword_def Let_def failure_def ok_def save_def
      split: sum.splits option.splits if_splits)

lemma resetPassword_token_mismatch:
  assumes "userId c < length st" "resetPasswordToken (st ! userId c) \<noteq> Val (Signed k c)"
  shows "\<not> success (fst (resetPassword hash secret now (Some (Signed k c)) npw st))"
  using assms
  by (auto simp add: resetPassword_def Let_def failure_def ok_def save_def findById_def
      verifyToken_def jwt_verify_def
      split: sum.splits option.splits if_splits)

lemma user_update_order:
  "u\<lparr>resetPasswordToken := a, resetPasswordExpires := b, password := p, updatedAt := t\<rparr> =
   u\<lparr>password := p, resetPasswordToken := a, resetPasswordExpires := b, updatedAt := t\<rparr>"
  by (cases u) simp

lemma resetPassword_success:
  assumes "resetPassword hash secret now tok npw store = (r, store1)" and "success r"
  shows "\<exists>k c pw. tok = Some (Signed k c) \<and> npw = Some pw \<and> userId c < length store \<and>
           type c = Val ''password-reset'' \<and>
           resetPasswordToken (store ! userId c) = Val (Signed k c) \<and>
           store1 = store[userId c :=
             (store ! userId c)\<lparr>password := Some (hash pw), resetPasswordToken := Null,
                                resetPasswordExpires := Null, updatedAt := now\<rparr>]"
  using assms
  apply (simp add: resetPassword_def Let_def failure_def ok_def save_def pre_save_def
      findById_def verifyToken_def jwt_verify_def falsy_def
      split: sum.splits option.splits if_splits jwt.splits)
  apply (auto simp add: user_update_order)
  done

text \<open>
  C5. When \<^verbatim>\<open>resetPassword\<close> succeeds, the body carried a signed token and a new
  password, and the one change to the collection is on the account the token names: its
  password is the hash of the new password and its reset token and expiry are
  \<^verbatim>\<open>null\<close>. Any later call with the same token, at any time and with any new password,
  fails with status 400 and leaves the collection, the password included, as it is.
\<close>

theorem resetPassword_single_use:
  assumes "resetPassword hash secret now1 tok npw store = (r1, store1)" and "success r1"
  shows "\<exists>k c pw. tok = Some (Signed k c) \<and> npw = Some pw \<and> userId c < length store \<and>
           store1 = store[userId c :=
             (store ! userId c)\<lparr>password := Some (hash pw), resetPasswordToken := Null,
                                resetPasswordExpires := Null, updatedAt := now1\<rparr>] \<and>
           (\<forall>now2 npw2.
              \<not> success (fst (resetPassword hash secret now2 tok npw2 store1)) \<and>
              status (fst (resetPassword hash secret now2 tok npw2 store1)) = 400 \<and>
              snd (resetPassword hash secret now2 tok npw2 store1) = store1)"
proof -
  obtain k c pw where f: "tok = Some (Signed k c)" "npw = Some pw" "userId c < length store"
    "store1 = store[userId c :=
             (store ! userId c)\<lparr>password := Some (hash pw), resetPasswordToken := Null,
                                resetPasswordExpires := Null, updatedAt := now1\<rparr>]"
    using resetPassword_success [OF assms] by blast
  have len: "userId c < length store1" using f by simp
  have cleared: "resetPasswordToken (store1 ! userId c) \<noteq> Val (Signed k c)"
    using f by simp
  have fail: "\<not> success (fst (resetPassword hash secret now2 tok npw2 store1))" for now2 npw2
    unfolding f(1) by (rule resetPassword_token_mismatch [OF len cleared])
  have frame: "status (fst (resetPassword hash secret now2 tok npw2 store1)) = 400 \<and>
       snd (resetPassword hash secret now2 tok npw2 store1) = store1" for now2 npw2
    by (rule resetPassword_failure_frame [OF fail])
  show ?thesis
    using f fail frame by blast
qed

theorem resetPassword_single_use_witness:
  "success (fst (resetPassword sample_hash ''k'' 2000
      (Some (generateShortToken ''k'' 1000 (reset_payload 0) one_hour)) (Some ''new-secret'')
      (snd (requestPasswordReset sample_hash ''k'' 1000 True (Some ''alice@x.com'') [alice])))) \<and>
   \<not> success (fst (resetPassword sample_hash ''k'' 3000
      (Some (generateShortToken ''k'' 1000 (reset_payload 0) one_hour)) (Some ''other-secret'')
      (snd (resetPassword sample_hash ''k'' 2000
        (Some (generateShortToken ''k'' 1000 (reset_payload 0) one_hour)) (Some ''new-secret'')
        (snd (requestPasswordReset sample_hash ''k'' 1000 True (Some ''alice@x.com'') [alice]))))))"
proof -
  let ?S1 = "snd (requestPasswordReset sample_hash ''k'' 1000 True (Some ''alice@x.com'') [alice])"
  let ?T = "Some (generateShortToken ''k'' 1000 (reset_payload 0) one_hour)"
  let ?R = "resetPassword sample_hash ''k'' 2000 ?T (Some ''new-secret'') ?S1"
  have a: "success (fst ?R)" by code_simp
  have e: "?R = (fst ?R, snd ?R)" by simp
  have "\<not> success (fst (resetPassword sample_hash ''k'' 3000 ?T (Some ''other-secret'') (snd ?R)))"
    using resetPassword_single_use [OF e a] by blast
  then show ?thesis using a by blast
qed

subsection \<open>Token types\<close>

lemma resetPassword_rejects_session_token:
  "\<not> success (fst (resetPassword hash secret now (Some (generateToken secret' t d)) npw store)) \<and>
   status (fst (resetPassword hash secret now (Some (generateToken secret' t d)) npw store)) = 400 \<and>
   snd (resetPassword hash secret now (Some (generateToken secret' t d)) npw store) = store"
proof -
  have "\<not> success (fst (resetPassword hash secret now (Some (generateToken secret' t d)) npw store))"
    by (auto simp add: resetPassword_def Let_def failure_def generateToken_def jwt_sign_def
        verifyToken_def jwt_verify_def split: sum.splits option.splits if_splits)
  then show ?thesis
    using resetPassword_failure_frame by blast
qed

lemma reset_token_grants_session:
  assumes "i < length store" "isVerified (store ! i)"
    "now2 div 1000 < now1 div 1000 + one_hour"
  shows "authenticateToken secret now2
           (Bearer (generateShortToken secret now1 (reset_payload i) one_hour)) store =
         Granted (i, store ! i) (generateShortToken secret now1 (reset_payload i) one_hour)"
  using assms
  by (simp add: authenticateToken_def extractTokenFromHeader_def verifyToken_def
      jwt_verify_def generateShortToken_def jwt_sign_def reset_payload_def findById_def)

text \<open>
  C1 at a concrete input. The token that \<^verbatim>\<open>requestPasswordReset\<close> mints for a verified
  account and stores as its reset token carries the type \<^verbatim>\<open>password-reset\<close>. Presented
  as a bearer token one second later, \<^verbatim>\<open>authenticateToken\<close> accepts it and attaches the
  account to the request: the middleware never reads the type.
\<close>

theorem reset_token_accepted_as_session:
  "type (reset_payload 0) = Val ''password-reset'' \<and>
   resetPasswordToken
     (snd (requestPasswordReset sample_hash ''k'' 1000 True (Some ''alice@x.com'') [alice]) ! 0) =
     Val (generateShortToken ''k'' 1000 (reset_payload 0) one_hour) \<and>
   authenticateToken ''k'' 2000
     (Bearer (generateShortToken ''k'' 1000 (reset_payload 0) one_hour))
     (snd (requestPasswordReset sample_hash ''k'' 1000 True (Some ''alice@x.com'') [alice])) =
     Granted
       (0, snd (requestPasswordReset sample_hash ''k'' 1000 True (Some ''alice@x.com'') [alice]) ! 0)
       (generateShortToken ''k'' 1000 (reset_payload 0) one_hour)"
  by code_simp

subsection \<open>Password reset: request\<close>

lemma requestPasswordReset_when_mail_sent:
  "\<not> falsy e \<Longrightarrow>
     fst (requestPasswordReset hash secret now True e store) = ok generic_reset_message"
  by (simp add: requestPasswordReset_def Let_def save_def split: option.splits)

lemma requestPasswordReset_no_password_account:
  assumes "\<not> falsy e"
    "findByEmail (the e) store = None \<or>
     (\<exists>i u. findByEmail (the e) store = Some (i, u) \<and> falsy (password u))"
  shows "requestPasswordReset hash secret now mailSent e store =
           (ok generic_reset_message, store)"
  using assms by (auto simp add: requestPasswordReset_def)

text \<open>
  C6 at a concrete input. The mail transport fails. A reset request for an address without
  an account is answered with status 200 and the generic message; a reset request for the
  address of an account with a password is answered with status 500.
\<close>

theorem reset_request_reveals_account_when_mail_fails:
  "fst (requestPasswordReset sample_hash ''k'' 1000 False (Some ''nouser@x.com'') [alice]) =
     \<lparr>status = 200, success = True,
      msg = ''If the email exists, a password reset link has been sent''\<rparr> \<and>
   fst (requestPasswordReset sample_hash ''k'' 1000 False (Some ''alice@x.com'') [alice]) =
     \<lparr>status = 500, success = False, msg = ''Failed to request password reset''\<rparr>"
  by code_simp

subsection \<open>Sign-in\<close>

lemma signin_failure_frame:
  "\<not> success (fst (fst (signin compare hash secret now e p store))) \<Longrightarrow>
     snd (signin compare hash secret now e p store) = store"
  by (auto simp add: signin_def Let_def failure_def ok_def save_def
      split: sum.splits option.splits if_splits)

lemma signin_success:
  "success (fst (fst (signin compare hash secret now e p store))) \<Longrightarrow>
     \<exists>i u. findByEmail (the e) store = Some (i, u) \<and> \<not> falsy e \<and> \<not> falsy p \<and>
       \<not> falsy (password u) \<and>
       comparePassword compare u (the p) = Inr True \<and> isVerified u \<and>
       snd (signin compare hash secret now e p store) =
         store[i := u\<lparr>lastLogin := now, updatedAt := now\<rparr>]"
  by (auto simp add: signin_def Let_def failure_def ok_def save_def pre_save_def
      split: sum.splits option.splits if_splits)

text \<open>
  C10. A \<^verbatim>\<open>signin\<close> that does not answer with success leaves the collection as it was.
  A \<^verbatim>\<open>signin\<close> that answers with success found the account, found a password on it,
  had the password accepted and found the account verified; its one change is to that
  account, whose \<^verbatim>\<open>lastLogin\<close> (and \<^verbatim>\<open>updatedAt\<close>) become the current time.
\<close>

theorem signin_failure_leaves_store:
  "(\<not> success (fst (fst (signin compare hash secret now e p store))) \<longrightarrow>
      snd (signin compare hash secret now e p store) = store) \<and>
   (success (fst (fst (signin compare hash secret now e p store))) \<longrightarrow>
      (\<exists>i u. findByEmail (the e) store = Some (i, u) \<and> \<not> falsy e \<and> \<not> falsy p \<and>
         \<not> falsy (password u) \<and>
         comparePassword compare u (the p) = Inr True \<and> isVerified u \<and>
         snd (signin compare hash secret now e p store) =
           store[i := u\<lparr>lastLogin := now, updatedAt := now\<rparr>]))"
  using signin_failure_frame [of compare hash secret now e p store]
    signin_success [of compare hash secret now e p store] by blast

theorem signin_failure_leaves_store_witness:
  "snd (signin sample_compare sample_hash ''k'' 5000 (Some ''alice@x.com'') (Some ''wrong horse'')
          [alice, gina]) = [alice, gina] \<and>
   snd (signin sample_compare sample_hash ''k'' 5000 (Some ''gina@x.com'') (Some ''correct horse'')
          [alice, gina]) = [alice, gina] \<and>
   snd (signin sample_compare sample_hash ''k'' 5000 (Some ''nouser@x.com'') (Some ''correct horse'')
          [alice, gina]) = [alice, gina] \<and>
   snd (signin sample_compare sample_hash ''k'' 5000 (Some ''alice@x.com'') (Some ''correct horse'')
          [alice, gina]) = [alice\<lparr>lastLogin := 5000, updatedAt := 5000\<rparr>, gina]"
proof -
  have a: "\<not> success (fst (fst (signin sample_compare sample_hash ''k'' 5000
              (Some ''alice@x.com'') (Some ''wrong horse'') [alice, gina])))"
    by code_simp
  have b: "\<not> success (fst (fst (signin sample_compare sample_hash ''k'' 5000
              (Some ''gina@x.com'') (Some ''correct horse'') [alice, gina])))"
    by code_simp
  have c: "\<not> success (fst (fst (signin sample_compare sample_hash ''k'' 5000
              (Some ''nouser@x.com'') (Some ''correct horse'') [alice, gina])))"
    by code_simp
  have d: "snd (signin sample_compare sample_hash ''k'' 5000 (Some ''alice@x.com'')
              (Some ''correct horse'') [alice, gina]) =
           [alice\<lparr>lastLogin := 5000, updatedAt := 5000\<rparr>, gina]"
    by code_simp
  show ?thesis
    using a b c d
      signin_failure_leaves_store [of sample_compare sample_hash "''k''" 5000
        "Some ''alice@x.com''" "Some ''wrong horse''" "[alice, gina]"]
      signin_failure_leaves_store [of sample_compare sample_hash "''k''" 5000
        "Some ''gina@x.com''" "Some ''correct horse''" "[alice, gina]"]
      signin_failure_leaves_store [of sample_compare sample_hash "''k''" 5000
        "Some ''nouser@x.com''" "Some ''correct horse''" "[alice, gina]"]
    by blast
qed

subsection \<open>Linking a Google profile\<close>

lemma findOne_Some_iff:
  "findOne P store = Some (i, u) \<longleftrightarrow>
     i < length store \<and> store ! i = u \<and> P u \<and> (\<forall>j<i. \<not> P (store ! j))"
proof
  assume "findOne P store = Some (i, u)"
  then obtain k where k: "k < length store" "P (snd (enumerate 0 store ! k))"
    "(i, u) = enumerate 0 store ! k" "\<forall>j<k. \<not> P (snd (enumerate 0 store ! j))"
    by (auto simp add: findOne_def find_Some_iff)
  have "enumerate 0 store ! k = (k, store ! k)" using k(1) by (simp add: nth_enumerate_eq)
  then have ik: "i = k" "u = store ! k" using k(3) by simp_all
  have "\<not> P (store ! j)" if "j < i" for j
  proof -
    have "j < length store" using that k(1) ik by simp
    then have "enumerate 0 store ! j = (j, store ! j)" by (simp add: nth_enumerate_eq)
    then show ?thesis using k(4) that ik by auto
  qed
  then show "i < length store \<and> store ! i = u \<and> P u \<and> (\<forall>j<i. \<not> P (store ! j))"
    using k ik by (simp add: nth_enumerate_eq)
next
  assume a: "i < length store \<and> store ! i = u \<and> P u \<and> (\<forall>j<i. \<not> P (store ! j))"
  have "\<exists>k<length (enumerate 0 store). P (snd (enumerate 0 store ! k)) \<and>
          (i, u) = enumerate 0 store ! k \<and> (\<forall>j<k. \<not> P (snd (enumerate 0 store ! j)))"
    using a by (intro exI [of _ i]) (auto simp add: nth_enumerate_eq)
  then show "findOne P store = Some (i, u)"
    by (simp add: findOne_def find_Some_iff)
qed

lemma findOne_None_iff: "findOne P store = None \<longleftrightarrow> (\<forall>u \<in> set store. \<not> P u)"
proof -
  have "set store = snd ` set (enumerate 0 store)"
    by (metis map_snd_enumerate set_map)
  then show ?thesis
    by (auto simp add: findOne_def find_None_iff)
qed

lemma findOne_update_same:
  assumes "findOne P store = Some (i, w)" "P u"
  shows "findOne P (store[i := u]) = Some (i, u)"
  using assms by (auto simp add: findOne_Some_iff)

lemma findOne_update_new:
  assumes "findOne P store = None" "i < length store" "P u"
  shows "findOne P (store[i := u]) = Some (i, u)"
proof -
  have "\<not> P (store ! j)" if "j < i" for j
    using assms(1,2) that by (simp add: findOne_None_iff)
  then show ?thesis
    using assms(2,3) by (simp add: findOne_Some_iff)
qed

lemma findOne_append_new:
  assumes "findOne P store = None" "P u"
  shows "findOne P (store @ [u]) = Some (length store, u)"
proof -
  have "\<not> P ((store @ [u]) ! j)" if "j < length store" for j
    using assms(1) that by (simp add: findOne_None_iff nth_append)
  then show ?thesis
    using assms(2) by (simp add: findOne_Some_iff)
qed

lemma findOne_in_range: "findOne P store = Some (i, w) \<Longrightarrow> i < length store \<and> store ! i = w"
  by (simp add: findOne_Some_iff)

lemma createGoogleUser_Inr:
  assumes "createGoogleUser validEmail now p store = (Inr (i, u), store1)"
  shows "i = length store \<and> store1 = store @ [u] \<and> googleId u = Some (profile_id p)"
  using assms
  by (auto simp add: createGoogleUser_def Let_def split: list.splits if_splits)

lemma createGoogleUser_Inl:
  assumes "createGoogleUser validEmail now p store = (Inl err, store1)"
  shows "store1 = store \<and> createGoogleUser validEmail now2 p store = (Inl err, store)"
  using assms
  by (auto simp add: createGoogleUser_def Let_def split: list.splits if_splits)

lemma first_link:
  assumes "findOrCreateGoogleUser validEmail hash now1 p store = (Inr (i, u), store1)"
  shows "findByGoogleId (profile_id p) store1 = Some (i, u) \<and>
         length store1 \<le> Suc (length store)"
proof (cases "findByGoogleId (profile_id p) store")
  case (Some d)
  obtain i0 w where d: "d = (i0, w)" by (cases d)
  have g: "googleId w = Some (profile_id p)"
    using Some d by (simp add: findByGoogleId_def findOne_Some_iff)
  have r: "i = i0" "u = w\<lparr>lastLogin := now1, updatedAt := now1\<rparr>" "store1 = store[i0 := u]"
    using assms Some d
    by (auto simp add: findOrCreateGoogleUser_def save_def pre_save_def Let_def)
  have "findOne (\<lambda>x. googleId x = Some (profile_id p)) (store[i0 := u]) = Some (i0, u)"
    by (rule findOne_update_same [of _ store i0 w])
       (use Some d g r in \<open>simp_all add: findByGoogleId_def\<close>)
  then show ?thesis using r by (simp add: findByGoogleId_def)
next
  case None
  show ?thesis
  proof (cases "case emails p of [] \<Rightarrow> None | e # es \<Rightarrow> findByEmail e store")
    case (Some d)
    obtain j w where d: "d = (j, w)" by (cases d)
    have jn: "j < length store"
      using Some d by (auto simp add: findByEmail_def findOne_Some_iff split: list.splits)
    have r: "i = j"
      "u = w\<lparr>googleId := Some (profile_id p), isVerified := True, lastLogin := now1,
             updatedAt := now1\<rparr>"
      "store1 = store[j := u]"
      using assms None Some d
      by (auto simp add: findOrCreateGoogleUser_def save_def pre_save_def Let_def
          split: if_splits)
    have "findOne (\<lambda>x. googleId x = Some (profile_id p)) (store[j := u]) = Some (j, u)"
      by (rule findOne_update_new) (use None jn r in \<open>simp_all add: findByGoogleId_def\<close>)
    then show ?thesis using r by (simp add: findByGoogleId_def)
  next
    case N2: None
    have c: "createGoogleUser validEmail now1 p store = (Inr (i, u), store1)"
      using assms None N2 by (simp add: findOrCreateGoogleUser_def)
    have r: "i = length store" "store1 = store @ [u]" "googleId u = Some (profile_id p)"
      using createGoogleUser_Inr [OF c] by simp_all
    have "findOne (\<lambda>x. googleId x = Some (profile_id p)) (store @ [u]) = Some (length store, u)"
      by (rule findOne_append_new) (use None r in \<open>simp_all add: findByGoogleId_def\<close>)
    then show ?thesis using r by (simp add: findByGoogleId_def)
  qed
qed

lemma linked_again:
  assumes "findByGoogleId (profile_id p) store1 = Some (i, u)"
  shows "findOrCreateGoogleUser validEmail hash now2 p store1 =
           (Inr (i, u\<lparr>lastLogin := now2, updatedAt := now2\<rparr>),
            store1[i := u\<lparr>lastLogin := now2, updatedAt := now2\<rparr>])"
  using assms by (simp add: findOrCreateGoogleUser_def save_def pre_save_def Let_def)

lemma first_failure:
  assumes "findOrCreateGoogleUser validEmail hash now1 p store = (Inl err, store1)"
  shows "store1 = store \<and>
         findOrCreateGoogleUser validEmail hash now2 p store = (Inl err, store)"
  using assms createGoogleUser_Inl [of validEmail now1 p store err store1 now2]
  by (auto simp add: findOrCreateGoogleUser_def save_def Let_def
      split: option.splits list.splits if_splits)

lemma merge_by_email:
  assumes "findByGoogleId (profile_id p) store = None" "emails p = e # es"
    "findByEmail e store = Some (j, w)" "profile_id p \<noteq> [] \<or> \<not> falsy (password w)"
  shows "findOrCreateGoogleUser validEmail hash now1 p store =
           (Inr (j, w\<lparr>googleId := Some (profile_id p), isVerified := True,
                     lastLogin := now1, updatedAt := now1\<rparr>),
            store[j := w\<lparr>googleId := Some (profile_id p), isVerified := True,
                     lastLogin := now1, updatedAt := now1\<rparr>])"
  using assms by (auto simp add: findOrCreateGoogleUser_def save_def pre_save_def Let_def)

text \<open>
  C9. If \<^verbatim>\<open>findOrCreateGoogleUser\<close> returns a user for a profile, a second call with the
  same profile returns the user with the same \<^verbatim>\<open>_id\<close>, changes only its
  \<^verbatim>\<open>lastLogin\<close> and \<^verbatim>\<open>updatedAt\<close>, and adds no document; the two calls together add
  at most one. If the first call throws, it changed nothing and the second call throws the
  same error. When no document has the profile's id and a document has its first address,
  that document gets the id, is marked verified, and no document is added (the save is
  accepted when the id is not empty or the document has a password).
\<close>

theorem findOrCreateGoogleUser_idempotent:
  "(\<forall>i u store1.
      findOrCreateGoogleUser validEmail hash now1 p store = (Inr (i, u), store1) \<longrightarrow>
        findOrCreateGoogleUser validEmail hash now2 p store1 =
          (Inr (i, u\<lparr>lastLogin := now2, updatedAt := now2\<rparr>),
           store1[i := u\<lparr>lastLogin := now2, updatedAt := now2\<rparr>]) \<and>
        length (snd (findOrCreateGoogleUser validEmail hash now2 p store1)) = length store1 \<and>
        length store1 \<le> Suc (length store) \<and>
        i < length store1 \<and> store1 ! i = u \<and> googleId u = Some (profile_id p)) \<and>
   (\<forall>err store1.
      findOrCreateGoogleUser validEmail hash now1 p store = (Inl err, store1) \<longrightarrow>
        store1 = store \<and>
        findOrCreateGoogleUser validEmail hash now2 p store1 = (Inl err, store1)) \<and>
   (\<forall>e es j w.
      findByGoogleId (profile_id p) store = None \<and> emails p = e # es \<and>
      findByEmail e store = Some (j, w) \<and> (profile_id p \<noteq> [] \<or> \<not> falsy (password w)) \<longrightarrow>
        findOrCreateGoogleUser validEmail hash now1 p store =
          (Inr (j, w\<lparr>googleId := Some (profile_id p), isVerified := True,
                    lastLogin := now1, updatedAt := now1\<rparr>),
           store[j := w\<lparr>googleId := Some (profile_id p), isVerified := True,
                    lastLogin := now1, updatedAt := now1\<rparr>]))"
proof -
  have a: "findOrCreateGoogleUser validEmail hash now2 p store1 =
          (Inr (i, u\<lparr>lastLogin := now2, updatedAt := now2\<rparr>),
           store1[i := u\<lparr>lastLogin := now2, updatedAt := now2\<rparr>]) \<and>
        length (snd (findOrCreateGoogleUser validEmail hash now2 p store1)) = length store1 \<and>
        length store1 \<le> Suc (length store) \<and>
        i < length store1 \<and> store1 ! i = u \<and> googleId u = Some (profile_id p)"
    if h: "findOrCreateGoogleUser validEmail hash now1 p store = (Inr (i, u), store1)"
    for i u store1
  proof -
    have l: "findByGoogleId (profile_id p) store1 = Some (i, u)"
      "length store1 \<le> Suc (length store)"
      using first_link [OF h] by simp_all
    have s: "findOrCreateGoogleUser validEmail hash now2 p store1 =
          (Inr (i, u\<lparr>lastLogin := now2, updatedAt := now2\<rparr>),
           store1[i := u\<lparr>lastLogin := now2, updatedAt := now2\<rparr>])"
      by (rule linked_again [OF l(1)])
    have r: "i < length store1 \<and> store1 ! i = u \<and> googleId u = Some (profile_id p)"
      using l(1) by (simp add: findByGoogleId_def findOne_Some_iff)
    show ?thesis using l(2) s r by simp
  qed
  have b: "store1 = store \<and>
        findOrCreateGoogleUser validEmail hash now2 p store1 = (Inl err, store1)"
    if h: "findOrCreateGoogleUser validEmail hash now1 p store = (Inl err, store1)"
    for err store1
    using first_failure [OF h, of now2] by simp
  have c: "findOrCreateGoogleUser validEmail hash now1 p store =
          (Inr (j, w\<lparr>googleId := Some (profile_id p), isVerified := True,
                    lastLogin := now1, updatedAt := now1\<rparr>),
           store[j := w\<lparr>googleId := Some (profile_id p), isVerified := True,
                    lastLogin := now1, updatedAt := now1\<rparr>])"
    if "findByGoogleId (profile_id p) store = None \<and> emails p = e # es \<and>
      findByEmail e store = Some (j, w) \<and> (profile_id p \<noteq> [] \<or> \<not> falsy (password w))"
    for e es j w
    by (rule merge_by_email [of p store e es j w]) (use that in auto)
  show ?thesis
    using a b c by blast
qed

theorem findOrCreateGoogleUser_idempotent_witness:
  "fst (findOrCreateGoogleUser sample_validEmail sample_hash 7000 alice_profile [alice, gina]) =
     Inr (0, alice\<lparr>googleId := Some ''g-2002'', isVerified := True,
                    lastLogin := 7000, updatedAt := 7000\<rparr>) \<and>
   fst (findOrCreateGoogleUser sample_validEmail sample_hash 8000 alice_profile
          (snd (findOrCreateGoogleUser sample_validEmail sample_hash 7000 alice_profile
                  [alice, gina]))) =
     Inr (0, alice\<lparr>googleId := Some ''g-2002'', isVerified := True,
                    lastLogin := 8000, updatedAt := 8000\<rparr>) \<and>
   length (snd (findOrCreateGoogleUser sample_validEmail sample_hash 8000 alice_profile
          (snd (findOrCreateGoogleUser sample_validEmail sample_hash 7000 alice_profile
                  [alice, gina])))) = 2 \<and>
   findOrCreateGoogleUser sample_validEmail sample_hash 8000 no_mail_profile [alice, gina] =
     (Inl ValidationError, [alice, gina])"
proof -
  let ?F = "findOrCreateGoogleUser sample_validEmail sample_hash 7000 alice_profile [alice, gina]"
  let ?u = "alice\<lparr>googleId := Some ''g-2002'', isVerified := True,
                    lastLogin := 7000, updatedAt := 7000\<rparr>"
  have f: "fst ?F = Inr (0, ?u)" by code_simp
  have n: "length (snd ?F) = 2" by code_simp
  have e: "?F = (Inr (0, ?u), snd ?F)" using f by (simp add: prod_eq_iff)
  have g: "findByGoogleId (profile_id alice_profile) [alice, gina] = None \<and>
           emails alice_profile = ''Alice@X.com'' # [] \<and>
           findByEmail ''Alice@X.com'' [alice, gina] = Some (0, alice) \<and>
           (profile_id alice_profile \<noteq> [] \<or> \<not> falsy (password alice))"
    by code_simp
  have m: "?F = (Inr (0, alice\<lparr>googleId := Some (profile_id alice_profile), isVerified := True,
                    lastLogin := 7000, updatedAt := 7000\<rparr>),
                 [alice, gina][0 := alice\<lparr>googleId := Some (profile_id alice_profile),
                    isVerified := True, lastLogin := 7000, updatedAt := 7000\<rparr>])"
    using findOrCreateGoogleUser_idempotent
      [of sample_validEmail sample_hash 7000 alice_profile "[alice, gina]" 8000] g
    by blast
  have x: "findOrCreateGoogleUser sample_validEmail sample_hash 7000 no_mail_profile [alice, gina] =
             (Inl ValidationError, [alice, gina])"
    by code_simp
  have y: "findOrCreateGoogleUser sample_validEmail sample_hash 8000 no_mail_profile [alice, gina] =
             (Inl ValidationError, [alice, gina])"
    using findOrCreateGoogleUser_idempotent
      [of sample_validEmail sample_hash 7000 no_mail_profile "[alice, gina]" 8000] x
    by blast
  have "findOrCreateGoogleUser sample_validEmail sample_hash 8000 alice_profile (snd ?F) =
          (Inr (0, ?u\<lparr>lastLogin := 8000, updatedAt := 8000\<rparr>),
           (snd ?F)[0 := ?u\<lparr>lastLogin := 8000, updatedAt := 8000\<rparr>]) \<and>
        length (snd (findOrCreateGoogleUser sample_validEmail sample_hash 8000 alice_profile
          (snd ?F))) = length (snd ?F)"
    using findOrCreateGoogleUser_idempotent
      [of sample_validEmail sample_hash 7000 alice_profile "[alice, gina]" 8000] e
    by blast
  then show ?thesis
    using f n y m by simp
qed

end
